theory Spec2Isabelle
  imports Main "HOL-Library.Word"
begin

section \<open>Locations (location.h)\<close>

text \<open>
  A \<open>const char *\<close> is an address; \<open>None\<close> is \<open>nullptr\<close>. The line and column
  counters are \<open>unsigned short\<close>.
\<close>

type_synonym char_ptr = "nat option"

record Location =
  ns :: string
  filename :: "string option"
  c :: char_ptr
  line :: "16 word"
  col :: "16 word"
  knownLocation :: bool

record LocationRange =
  range_start :: Location
  range_end :: Location

definition Location_UnknownLocation :: "string \<Rightarrow> Location" where
  "Location_UnknownLocation n =
     \<lparr>ns = n, filename = None, c = None, line = 0, col = 0, knownLocation = False\<rparr>"

definition LocationRange_UnknownLocation :: "string \<Rightarrow> LocationRange" where
  "LocationRange_UnknownLocation n =
     \<lparr>range_start = Location_UnknownLocation n, range_end = Location_UnknownLocation n\<rparr>"

definition isKnownLocation :: "LocationRange \<Rightarrow> bool" where
  "isKnownLocation lr = knownLocation (range_start lr)"

section \<open>Errors (errors.h, errors.cpp and the table of default messages)\<close>

datatype Type =
    NSLoadError
  | NSAddToSMError
  | InvalidDigitForNumber
  | TwoFloatPoints
  | InvalidCharacterForSymbol
  | EOFWhileScaningAList
  | FINALERROR

text \<open>
  The array \<open>errorMessages\<close> has \<open>FINALERROR + 1\<close> slots and six initialisers; the
  last slot is a value-initialised (empty) string.
\<close>

fun errorMessages :: "Type \<Rightarrow> string" where
  "errorMessages NSLoadError = ''Faild to load the namespace''"
| "errorMessages NSAddToSMError = ''Faild to add the namespace to the source manager''"
| "errorMessages InvalidDigitForNumber = ''Invalid number format''"
| "errorMessages TwoFloatPoints = ''Invalid float number format''"
| "errorMessages InvalidCharacterForSymbol = ''Invalid symbol format''"
| "errorMessages EOFWhileScaningAList =
     ''Reached the end of the file while scanning for a list''"
| "errorMessages FINALERROR = ''''"

record errors_Error =
  errtype :: Type
  location :: LocationRange
  msg :: string

text \<open>
  The two constructors of \<open>errors::Error\<close>: without a message the member \<open>msg\<close> is
  default-constructed, that is empty.
\<close>

definition Error_ctor2 :: "Type \<Rightarrow> LocationRange \<Rightarrow> errors_Error" where
  "Error_ctor2 t loc = \<lparr>errtype = t, location = loc, msg = ''''\<rparr>"

definition Error_ctor3 :: "Type \<Rightarrow> LocationRange \<Rightarrow> string \<Rightarrow> errors_Error" where
  "Error_ctor3 t loc m = \<lparr>errtype = t, location = loc, msg = m\<rparr>"

definition errors_make :: "Type \<Rightarrow> LocationRange \<Rightarrow> errors_Error" where
  "errors_make t loc = Error_ctor2 t loc"

definition errors_make_msg :: "Type \<Rightarrow> LocationRange \<Rightarrow> string \<Rightarrow> errors_Error" where
  "errors_make_msg t loc m = Error_ctor3 t loc m"

text \<open>
  \<open>log\<close> writes to an output stream; the stream is the text written so far.
  \<open>getMessage\<close> prints the error into an empty string stream, which calls \<open>log\<close>.
\<close>

definition log :: "errors_Error \<Rightarrow> string \<Rightarrow> string" where
  "log e os = os @ msg e"

definition getMessage :: "errors_Error \<Rightarrow> string" where
  "getMessage e = log e ''''"

section \<open>Environments (environment.h)\<close>

text \<open>
  An environment holds a raw pointer to its parent and a string map of bindings.
  Environments live in a store and are named by their addresses, so that an insertion
  into a parent is seen through the pointer a child holds.
\<close>

datatype 'v Environment =
  Environment (parent: "nat option") (pairs: "string \<rightharpoonup> 'v")

type_synonym 'v env_store = "nat \<rightharpoonup> 'v Environment"

section \<open>The syntax tree (ast.h, ast.cpp)\<close>

text \<open>
  \<open>TypeID\<close> is declared in \<open>serene/config.h\<close>, which is not among the sources; the
  enumerators that \<open>ast.cpp\<close> and \<open>types.h\<close> use are collected here.
\<close>

datatype TypeID =
  TYPE | NIL | FN | PROTOCOL | INT | LIST | SYMBOL | NUMBER | STRING | KEYWORD | NS

text \<open>
  One constructor for each struct derived from \<open>Expression\<close>, with the members in the
  order of their declaration after the inherited \<open>location\<close>. The tag of an \<open>Error\<close>
  node is an owned \<open>Keyword\<close> (its location and name) or null.
\<close>

datatype Expression =
    Symbol LocationRange (sym_name: string) (sym_nsName: string)
  | Number LocationRange string bool bool
  | List LocationRange "Expression list"
  | String LocationRange string
  | Keyword LocationRange string
  | Error LocationRange string "(LocationRange \<times> string) option"
  | Namespace LocationRange (ns_name: string) (ns_filename: "string option")
      (ns_tree: "Expression list") (ns_environments: "Expression Environment list")

type_synonym Node = Expression
type_synonym Ast = "Expression list"

fun getType :: "Expression \<Rightarrow> TypeID" where
  "getType (Symbol _ _ _) = SYMBOL"
| "getType (Number _ _ _ _) = NUMBER"
| "getType (List _ _) = LIST"
| "getType (String _ _) = STRING"
| "getType (Keyword _ _) = KEYWORD"
| "getType (Error _ _ _) = KEYWORD"
| "getType (Namespace _ _ _ _ _) = NS"

definition Symbol_classof :: "Expression \<Rightarrow> bool" where
  "Symbol_classof e = (getType e = SYMBOL)"

definition Number_classof :: "Expression \<Rightarrow> bool" where
  "Number_classof e = (getType e = NUMBER)"

definition List_classof :: "Expression \<Rightarrow> bool" where
  "List_classof e = (getType e = LIST)"

definition String_classof :: "Expression \<Rightarrow> bool" where
  "String_classof e = (getType e = STRING)"

definition Keyword_classof :: "Expression \<Rightarrow> bool" where
  "Keyword_classof e = (getType e = KEYWORD)"

definition Error_classof :: "Expression \<Rightarrow> bool" where
  "Error_classof e = (getType e = KEYWORD)"

definition Namespace_classof :: "Expression \<Rightarrow> bool" where
  "Namespace_classof e = (getType e = NS)"

subsection \<open>The constructor of Symbol\<close>

text \<open>
  \<open>StringRef::find(char)\<close> gives the index of the first occurrence, or \<open>npos\<close>
  (\<open>None\<close>). \<open>StringRef::substr(Start, N)\<close> clamps \<open>Start\<close> to the length and \<open>N\<close> to
  what is left.
\<close>

fun find_from :: "char \<Rightarrow> string \<Rightarrow> nat \<Rightarrow> nat option" where
  "find_from ch [] i = None"
| "find_from ch (x # xs) i = (if x = ch then Some i else find_from ch xs (Suc i))"

definition StringRef_find :: "string \<Rightarrow> char \<Rightarrow> nat option" where
  "StringRef_find s ch = find_from ch s 0"

definition substr :: "string \<Rightarrow> nat \<Rightarrow> nat \<Rightarrow> string" where
  "substr s st n =
     (let st' = min st (length s) in take (min n (length s - st')) (drop st' s))"

definition Symbol_ctor :: "LocationRange \<Rightarrow> string \<Rightarrow> string \<Rightarrow> Expression" where
  "Symbol_ctor loc name currentNS =
     (case StringRef_find name (CHR ''/'') of
        None \<Rightarrow> Symbol loc name currentNS
      | Some partDelimiter \<Rightarrow>
          Symbol loc (substr name (partDelimiter + 1) (length name))
                     (substr name 0 partDelimiter))"

subsection \<open>Operations of Environment\<close>

text \<open>
  \<open>lookup\<close> tests the value that \<open>StringMap::lookup\<close> returns, which is the stored
  value or a default-constructed \<open>V\<close> when the key is absent, by converting it to
  \<open>bool\<close>. The conversion \<open>toBool\<close> and the default value \<open>dflt\<close> belong to the type
  \<open>V\<close> and are parameters. The outer \<open>option\<close> of the result is \<open>None\<close> when the walk
  does not return (a cyclic parent chain) or follows a pointer to no environment; the
  inner one is the \<open>std::optional\<close> of the source.
\<close>

definition StringMap_lookup :: "'v \<Rightarrow> (string \<rightharpoonup> 'v) \<Rightarrow> string \<Rightarrow> 'v" where
  "StringMap_lookup dflt m key = (case m key of Some v \<Rightarrow> v | None \<Rightarrow> dflt)"

definition insert_or_assign :: "('k \<rightharpoonup> 'v) \<Rightarrow> 'k \<Rightarrow> 'v \<Rightarrow> ('k \<rightharpoonup> 'v)" where
  "insert_or_assign m key v = m(key \<mapsto> v)"

definition Environment_ctor :: "nat option \<Rightarrow> 'v Environment" where
  "Environment_ctor p = Environment p Map.empty"

partial_function (option) lookup ::
  "('v \<Rightarrow> bool) \<Rightarrow> 'v \<Rightarrow> 'v env_store \<Rightarrow> nat \<Rightarrow> string \<Rightarrow> 'v option option" where
  "lookup toBool dflt st this key =
     (case st this of
        None \<Rightarrow> None
      | Some env \<Rightarrow>
          if toBool (StringMap_lookup dflt (pairs env) key)
          then Some (Some (StringMap_lookup dflt (pairs env) key))
          else (case parent env of
                  Some p \<Rightarrow> lookup toBool dflt st p key
                | None \<Rightarrow> Some None))"

datatype LogicalResult = Success | Failure

definition insert_symbol ::
  "'v env_store \<Rightarrow> nat \<Rightarrow> string \<Rightarrow> 'v \<Rightarrow> (LogicalResult \<times> 'v env_store) option" where
  "insert_symbol st this key v =
     (case st this of
        None \<Rightarrow> None
      | Some env \<Rightarrow>
          Some (Success,
                st(this \<mapsto> Environment (parent env) (insert_or_assign (pairs env) key v))))"

section \<open>Options (options.h)\<close>

datatype CompilationPhase =
  Parse | Analysis | SLIR | MLIR | LIR | IR | NoOptimization | O1 | O2 | O3

record Options =
  verbose :: bool
  withColors :: bool
  JITenableObjectCache :: bool
  JITenableGDBNotificationListener :: bool
  JITenablePerfNotificationListener :: bool
  JITLazy :: bool
  targetTriple :: string
  hostTriple :: string
  compilationPhase :: CompilationPhase

section \<open>Namespaces (namespace.h, namespace.cpp)\<close>

text \<open>
  The member \<open>engine\<close> is a reference to the JIT; \<open>ExpandTree\<close> reads only its options,
  which stand for it here. A parent pointer of an environment is its index in
  \<open>environments\<close>.
\<close>

record serene_Namespace =
  engine :: Options
  tree :: Ast
  environments :: "Node Environment list"
  symbolList :: "string list"
  name :: string
  nsfilename :: "string option"

definition createEnv :: "serene_Namespace \<Rightarrow> nat option \<Rightarrow> nat \<times> serene_Namespace" where
  "createEnv this p =
     (let this' = this\<lparr>environments := environments this @ [Environment_ctor p]\<rparr>
      in (length (environments this') - 1, this'))"

definition Namespace_ctor ::
  "Options \<Rightarrow> string \<Rightarrow> string option \<Rightarrow> serene_Namespace" where
  "Namespace_ctor eng nm fname =
     snd (createEnv \<lparr>engine = eng, tree = [], environments = [], symbolList = [],
                     name = nm, nsfilename = fname\<rparr> None)"

definition getTree :: "serene_Namespace \<Rightarrow> Ast" where
  "getTree this = tree this"

text \<open>
  \<open>ExpandTree\<close> takes the ast by reference: it returns the error (\<open>None\<close> is
  \<open>llvm::Error::success()\<close>), the namespace and the ast as it leaves them. The forms
  are moved to the end of \<open>tree\<close> and the ast is cleared, in both branches.
\<close>

definition ExpandTree ::
  "serene_Namespace \<Rightarrow> Ast \<Rightarrow> errors_Error option \<times> serene_Namespace \<times> Ast" where
  "ExpandTree this ast =
     (if compilationPhase (engine this) = Parse
      then (let this' = this\<lparr>tree := tree this @ ast\<rparr>;
                ast' = []
            in (None, this', ast'))
      else (let this' = this\<lparr>tree := tree this @ ast\<rparr>;
                ast' = []
            in (None, this', ast')))"

text \<open>
  The struct \<open>ast::Namespace\<close>, which \<open>readNamespace\<close> builds: its constructor creates
  the root environment.
\<close>

definition ast_Namespace_ctor ::
  "LocationRange \<Rightarrow> string \<Rightarrow> string option \<Rightarrow> Expression" where
  "ast_Namespace_ctor loc n fname = Namespace loc n fname [] [Environment_ctor None]"

text \<open>
  Modelled from the spec: the body of \<open>ast::Namespace::ExpandTree\<close>, which \<open>ast.h\<close>
  declares and no source file defines. The spec's \<open>expandTree\<close> appends the forms to
  \<open>tree\<close>, leaves the ast handle empty, and its analysis hook is a pass-through; the
  body of \<open>Namespace::ExpandTree\<close> in \<open>namespace.cpp\<close> does the same.
\<close>

fun ast_ExpandTree :: "Expression \<Rightarrow> Ast \<Rightarrow> errors_Error option \<times> Expression \<times> Ast" where
  "ast_ExpandTree (Namespace loc n fname tr envs) ast =
     (None, Namespace loc n fname (tr @ ast) envs, [])"
| "ast_ExpandTree e ast = (None, e, ast)"

section \<open>The source manager (source_mgr.cpp)\<close>

text \<open>
  The header \<open>source_mgr.h\<close> is not among the sources; the members are the ones that
  \<open>source_mgr.cpp\<close> uses. A buffer is the byte sequence of its \<open>llvm::MemoryBuffer\<close>;
  \<open>offsetCache\<close> is \<open>None\<close> while the pointer is null and holds the elements of the
  vector otherwise. Buffer ids are \<open>unsigned\<close>.
\<close>

record SrcBuffer =
  buffer :: string
  offsetCache :: "nat list option"
  importLoc :: LocationRange

record SourceMgr =
  buffers :: "SrcBuffer list"
  nsTable :: "string \<rightharpoonup> 32 word"
  loadPaths :: "string list"

text \<open>
  What the source manager asks of the LLVM support library and of the build
  configuration: \<open>llvm::MemoryBuffer::getFile\<close> (an error code or the bytes of the
  file), \<open>llvm::sys::path::get_separator\<close>, \<open>llvm::sys::path::native\<close> and the
  constant \<open>DEFAULT_SUFFIX\<close>.
\<close>

type_synonym error_code = int

record Host =
  getFile :: "string \<Rightarrow> error_code + string"
  get_separator :: string
  native :: "string \<Rightarrow> string"
  DEFAULT_SUFFIX :: string

definition std_replace :: "string \<Rightarrow> char \<Rightarrow> char \<Rightarrow> string" where
  "std_replace s old new = map (\<lambda>ch. if ch = old then new else ch) s"

definition convertNamespaceToPath :: "Host \<Rightarrow> string \<Rightarrow> string" where
  "convertNamespaceToPath H ns_nm =
     (let ns_nm' = std_replace ns_nm (CHR ''.'') (CHR ''/'');
          path = [] @ ns_nm'
      in native H path)"

definition isValidBufferID :: "SourceMgr \<Rightarrow> 32 word \<Rightarrow> bool" where
  "isValidBufferID this i = (i \<noteq> 0 \<and> unat i \<le> length (buffers this))"

text \<open>
  The loop of \<open>findFileInLoadPath\<close> over the directories still to be probed. It
  writes the candidate path to the reference \<open>importedFile\<close> before each probe, so the
  function returns the buffer pointer (\<open>None\<close> is \<open>nullptr\<close>) and \<open>importedFile\<close> as
  it leaves it.
\<close>

fun findFile_loop ::
  "Host \<Rightarrow> string \<Rightarrow> string list \<Rightarrow> string \<Rightarrow> string option \<times> string" where
  "findFile_loop H path [] importedFile = (None, importedFile)"
| "findFile_loop H path (d # ds) importedFile =
     (let importedFile' = d @ get_separator H @ path @ ''.'' @ DEFAULT_SUFFIX H
      in case getFile H importedFile' of
           Inl err \<Rightarrow> findFile_loop H path ds importedFile'
         | Inr newBuf \<Rightarrow> (Some newBuf, importedFile'))"

definition findFileInLoadPath ::
  "Host \<Rightarrow> SourceMgr \<Rightarrow> string \<Rightarrow> string \<Rightarrow> string option \<times> string" where
  "findFileInLoadPath H this nm importedFile =
     (let path = convertNamespaceToPath H nm
      in findFile_loop H path (loadPaths this) importedFile)"

definition AddNewSourceBuffer ::
  "SourceMgr \<Rightarrow> string \<Rightarrow> LocationRange \<Rightarrow> 32 word \<times> SourceMgr" where
  "AddNewSourceBuffer this f includeLoc =
     (let nb = \<lparr>buffer = f, offsetCache = None, importLoc = includeLoc\<rparr>;
          this' = this\<lparr>buffers := buffers this @ [nb]\<rparr>
      in (of_nat (length (buffers this')), this'))"

text \<open>
  Modelled from the spec: \<open>getMemoryBuffer\<close>, declared in the missing header. The
  spec's \<open>getBuffer(id)\<close> has the precondition that the id is valid and ids are
  1-based, so the buffer of id \<open>i\<close> is the element \<open>i - 1\<close>.
\<close>

definition getMemoryBuffer :: "SourceMgr \<Rightarrow> 32 word \<Rightarrow> string" where
  "getMemoryBuffer this i = buffer (buffers this ! (unat i - 1))"

definition quote :: string where
  "quote = [CHR 0x27]"

text \<open>
  \<open>readNamespace\<close> returns the error or the namespace, and the source manager as it
  leaves it. The reader (\<open>read\<close> of \<open>reader.h\<close>, whose body is not among the sources)
  is the parameter \<open>rd\<close>: from the bytes, the namespace name and the file name to an
  error or an ast.
\<close>

type_synonym reader = "string \<Rightarrow> string \<Rightarrow> string option \<Rightarrow> errors_Error + Ast"

definition readNamespace ::
  "Host \<Rightarrow> reader \<Rightarrow> SourceMgr \<Rightarrow> string \<Rightarrow> LocationRange
     \<Rightarrow> (errors_Error + Expression) \<times> SourceMgr" where
  "readNamespace H rd this nm impLoc =
     (case findFileInLoadPath H this nm [] of
        (None, importedFile) \<Rightarrow>
          (Inl (errors_make_msg NSLoadError impLoc
                  (''Couldn'' @ quote @ ''t find namespace '' @ quote @ nm @ quote)),
           this)
      | (Some newBuf, importedFile) \<Rightarrow>
          (case AddNewSourceBuffer this newBuf impLoc of
             (bufferId, this1) \<Rightarrow>
               (let this2 = this1\<lparr>nsTable := insert_or_assign (nsTable this1) nm bufferId\<rparr>
                in if bufferId = 0
                   then (Inl (errors_make_msg NSAddToSMError impLoc
                                (''Couldn'' @ quote @ ''t add namespace '' @ quote @ nm
                                   @ quote)),
                         this2)
                   else (let buf = getMemoryBuffer this2 bufferId
                         in case rd buf nm (Some importedFile) of
                              Inl err \<Rightarrow> (Inl err, this2)
                            | Inr ast \<Rightarrow>
                                (let ns0 = ast_Namespace_ctor impLoc nm (Some importedFile)
                                 in case ast_ExpandTree ns0 ast of
                                      (Some errs, ns1, ast') \<Rightarrow> (Inl errs, this2)
                                    | (None, ns1, ast') \<Rightarrow> (Inr ns1, this2))))))"

subsection \<open>The line offset cache\<close>

text \<open>
  \<open>static_cast<T>(n)\<close> to an unsigned type of \<open>w\<close> bits keeps \<open>n mod 2 ^ w\<close>. The loop
  of \<open>GetOrCreateOffsetCache\<close> runs \<open>n\<close> from 0 to the size of the buffer. The
  assertion before it (the size fits \<open>T\<close>) is compiled out of a release build and is
  not part of the function; that the dispatch of \<open>getPointerForLineNumber\<close> meets it
  is proved below.
\<close>

function fill_offsets :: "nat \<Rightarrow> string \<Rightarrow> nat \<Rightarrow> nat \<Rightarrow> nat list \<Rightarrow> nat list" where
  "fill_offsets w s sz n offsets =
     (if n < sz
      then fill_offsets w s sz (n + 1)
             (if s ! n = CHR 0x0A then offsets @ [n mod 2 ^ w] else offsets)
      else offsets)"
  by pat_completeness auto
termination
  by (relation "measure (\<lambda>(w, s, sz, n, offsets). sz - n)") auto

declare fill_offsets.simps [simp del]

definition GetOrCreateOffsetCache :: "nat \<Rightarrow> SrcBuffer \<Rightarrow> nat list \<times> SrcBuffer" where
  "GetOrCreateOffsetCache w sb =
     (case offsetCache sb of
        Some offsets \<Rightarrow> (offsets, sb)
      | None \<Rightarrow>
          (let sz = length (buffer sb);
               offsets = fill_offsets w (buffer sb) sz 0 []
           in (offsets, sb\<lparr>offsetCache := Some offsets\<rparr>)))"

text \<open>
  A pointer into the buffer is its distance from \<open>getBufferStart()\<close>, so \<open>bufStart\<close>
  is \<open>Some 0\<close>; \<open>None\<close> is \<open>nullptr\<close>. The line number is \<open>unsigned\<close>.
\<close>

definition getPointerForLineNumberSpecialized ::
  "nat \<Rightarrow> SrcBuffer \<Rightarrow> 32 word \<Rightarrow> char_ptr \<times> SrcBuffer" where
  "getPointerForLineNumberSpecialized w sb lineNo =
     (case GetOrCreateOffsetCache w sb of
        (offsets, sb') \<Rightarrow>
          (let lineNo' = (if lineNo \<noteq> 0 then lineNo - 1 else lineNo);
               bufStart = 0
           in if lineNo' = 0 then (Some bufStart, sb')
              else if unat lineNo' > length offsets then (None, sb')
              else (Some (bufStart + offsets ! (unat lineNo' - 1) + 1), sb')))"

definition getPointerForLineNumber :: "SrcBuffer \<Rightarrow> 32 word \<Rightarrow> char_ptr \<times> SrcBuffer" where
  "getPointerForLineNumber sb lineNo =
     (let sz = length (buffer sb)
      in if sz \<le> 255 then getPointerForLineNumberSpecialized 8 sb lineNo
         else if sz \<le> 65535 then getPointerForLineNumberSpecialized 16 sb lineNo
         else if sz \<le> 4294967295 then getPointerForLineNumberSpecialized 32 sb lineNo
         else getPointerForLineNumberSpecialized 64 sb lineNo)"

section \<open>Specification-side definitions\<close>

text \<open>
  The offsets of the newline bytes of a buffer in buffer order, as the specification
  describes the content of the offset cache, and the pointer the specification gives
  for a line number (a distance from the start of the buffer, \<open>None\<close> for null).
\<close>

definition spec_newline_offsets :: "string \<Rightarrow> nat list" where
  "spec_newline_offsets s = filter (\<lambda>i. s ! i = CHR 0x0A) [0..<length s]"

definition spec_line_pointer :: "string \<Rightarrow> nat \<Rightarrow> char_ptr" where
  "spec_line_pointer s lineNo =
     (if lineNo \<le> 1 then Some 0
      else if lineNo - 1 > length (spec_newline_offsets s) then None
      else Some (spec_newline_offsets s ! (lineNo - 2) + 1))"

text \<open>
  The state of the cache of a buffer between calls: not yet built, or holding the
  newline offsets of the buffer.
\<close>

definition cache_consistent :: "SrcBuffer \<Rightarrow> bool" where
  "cache_consistent sb =
     (offsetCache sb = None \<or> offsetCache sb = Some (spec_newline_offsets (buffer sb)))"



text \<open>
  A sequence of calls of \<open>AddNewSourceBuffer\<close> on one source manager: the id that each
  call returns, with the source manager as the call leaves it.
\<close>

fun run_AddNewSourceBuffer ::
  "SourceMgr \<Rightarrow> (string \<times> LocationRange) list \<Rightarrow> (32 word \<times> SourceMgr) list" where
  "run_AddNewSourceBuffer sm [] = []"
| "run_AddNewSourceBuffer sm ((f, loc) # calls) =
     (case AddNewSourceBuffer sm f loc of
        (i, sm') \<Rightarrow> (i, sm') # run_AddNewSourceBuffer sm' calls)"

text \<open>
  The store after \<open>insert_symbol\<close>, for chaining insertions.
\<close>

definition store_after_insert :: "'v env_store \<Rightarrow> nat \<Rightarrow> string \<Rightarrow> 'v \<Rightarrow> 'v env_store" where
  "store_after_insert st this key v =
     (case insert_symbol st this key v of Some (r, st') \<Rightarrow> st' | None \<Rightarrow> st)"

section \<open>Example inputs\<close>

text \<open>
  A host with the POSIX separator, on which two files exist; a reader that fails on an
  unterminated list; a source manager with two load paths; the buffer of the
  specification's line pointer scenario; and a store of two environments of \<open>int\<close>
  values (an \<open>int\<close> converts to \<open>true\<close> when it is not zero), the second a child of the
  first.
\<close>

definition example_Host :: Host where
  "example_Host =
     \<lparr>getFile = (\<lambda>p. if p = ''/tmp/b/x/y.srn'' then Inr ''(a 1)''
                     else if p = ''/tmp/b/bad.srn'' then Inr ''(a''
                     else Inl 2),
      get_separator = ''/'',
      native = (\<lambda>p. std_replace p (CHR 0x5C) (CHR ''/'')),
      DEFAULT_SUFFIX = ''srn''\<rparr>"

definition example_reader :: reader where
  "example_reader input n f =
     (if input = ''(a''
      then Inl (errors_make EOFWhileScaningAList (LocationRange_UnknownLocation n))
      else Inr [])"

definition example_SourceMgr :: SourceMgr where
  "example_SourceMgr =
     \<lparr>buffers = [], nsTable = Map.empty, loadPaths = [''/tmp/a'', ''/tmp/b'']\<rparr>"

text \<open>
  A source manager that already holds \<open>2 ^ 32 - 1\<close> buffers, the largest number an
  \<open>unsigned\<close> id can name.
\<close>

definition example_full_SourceMgr :: SourceMgr where
  "example_full_SourceMgr =
     \<lparr>buffers = replicate 4294967295
                  \<lparr>buffer = [], offsetCache = None,
                   importLoc = LocationRange_UnknownLocation ''user''\<rparr>,
      nsTable = Map.empty, loadPaths = []\<rparr>"

definition example_SrcBuffer :: SrcBuffer where
  "example_SrcBuffer =
     \<lparr>buffer = ''aa'' @ [CHR 0x0A] @ ''bb'' @ [CHR 0x0A] @ ''cc'', offsetCache = None,
      importLoc = LocationRange_UnknownLocation ''user''\<rparr>"

definition int_toBool :: "int \<Rightarrow> bool" where
  "int_toBool v = (v \<noteq> 0)"

definition example_env_store :: "int env_store" where
  "example_env_store = [0 \<mapsto> Environment_ctor None, 1 \<mapsto> Environment_ctor (Some 0)]"

section \<open>Line pointers\<close>

lemma map_mod_filter_id:
  assumes "length s \<le> 2 ^ w - 1"
  shows "map (\<lambda>i. i mod 2 ^ w) (filter P [0..<length s]) = filter P [0..<length s]"
proof (rule map_idI)
  fix i assume "i \<in> set (filter P [0..<length s])"
  then have "i < length s" by simp
  moreover have "(0::nat) < 2 ^ w" by simp
  ultimately have "i < 2 ^ w" using assms by linarith
  then show "i mod 2 ^ w = i" by simp
qed

lemma fill_offsets_filter:
  "sz = length s \<Longrightarrow>
   fill_offsets w s sz n acc =
     acc @ map (\<lambda>i. i mod 2 ^ w) (filter (\<lambda>i. s ! i = CHR 0x0A) [n..<sz])"
proof (induction w s sz n acc rule: fill_offsets.induct)
  case (1 w s sz n offsets)
  show ?case
  proof (cases "n < sz")
    case True
    then have upt: "[n..<sz] = n # [Suc n..<sz]"
      by (simp add: upt_conv_Cons)
    have step: "fill_offsets w s sz n offsets =
        fill_offsets w s sz (n + 1)
          (if s ! n = CHR 0x0A then offsets @ [n mod 2 ^ w] else offsets)"
      using True by (subst fill_offsets.simps) simp
    have ih: "fill_offsets w s sz (n + 1)
          (if s ! n = CHR 0x0A then offsets @ [n mod 2 ^ w] else offsets) =
        (if s ! n = CHR 0x0A then offsets @ [n mod 2 ^ w] else offsets) @
          map (\<lambda>i. i mod 2 ^ w) (filter (\<lambda>i. s ! i = CHR 0x0A) [Suc n..<sz])"
      using "1.IH" [OF True] "1.prems" by simp
    show ?thesis
      by (simp only: step ih) (simp add: upt)
  next
    case False
    then show ?thesis
      by (subst fill_offsets.simps) simp
  qed
qed


lemma fill_offsets_spec:
  "length s \<le> 2 ^ w - 1 \<Longrightarrow> fill_offsets w s (length s) 0 [] = spec_newline_offsets s"
  by (simp add: fill_offsets_filter map_mod_filter_id spec_newline_offsets_def)

lemma spec_newline_offsets_Nil: "spec_newline_offsets [] = []"
  by (simp add: spec_newline_offsets_def)

lemma spec_newline_offsets_snoc:
  "spec_newline_offsets (xs @ [x]) =
     spec_newline_offsets xs @ (if x = CHR 0x0A then [length xs] else [])"
proof -
  have "filter (\<lambda>i. (xs @ [x]) ! i = CHR 0x0A) [0..<length xs] =
        filter (\<lambda>i. xs ! i = CHR 0x0A) [0..<length xs]"
    by (rule filter_cong) (auto simp: nth_append)
  then show ?thesis
    by (simp add: spec_newline_offsets_def)
qed

lemma length_spec_newline_offsets:
  "length (spec_newline_offsets s) = count_list s (CHR 0x0A)"
  by (induction s rule: rev_induct)
     (simp_all add: spec_newline_offsets_snoc spec_newline_offsets_Nil)

lemma spec_newline_offsets_nth:
  "k < length (spec_newline_offsets s) \<Longrightarrow>
   spec_newline_offsets s ! k < length s \<and>
   s ! (spec_newline_offsets s ! k) = CHR 0x0A \<and>
   count_list (take (spec_newline_offsets s ! k) s) (CHR 0x0A) = k"
proof (induction s rule: rev_induct)
  case Nil
  then show ?case by (simp add: spec_newline_offsets_Nil)
next
  case (snoc x xs)
  show ?case
  proof (cases "k < length (spec_newline_offsets xs)")
    case True
    with snoc.IH have ih: "spec_newline_offsets xs ! k < length xs"
      "xs ! (spec_newline_offsets xs ! k) = CHR 0x0A"
      "count_list (take (spec_newline_offsets xs ! k) xs) (CHR 0x0A) = k"
      by simp_all
    from True have "spec_newline_offsets (xs @ [x]) ! k = spec_newline_offsets xs ! k"
      by (simp add: spec_newline_offsets_snoc nth_append)
    with ih show ?thesis by (simp add: nth_append)
  next
    case False
    with snoc.prems have x: "x = CHR 0x0A" and k: "k = length (spec_newline_offsets xs)"
      by (auto simp: spec_newline_offsets_snoc split: if_splits)
    then have "spec_newline_offsets (xs @ [x]) ! k = length xs"
      by (simp add: spec_newline_offsets_snoc nth_append)
    with x k show ?thesis
      by (simp add: length_spec_newline_offsets)
  qed
qed

lemma GetOrCreateOffsetCache_spec:
  assumes "cache_consistent sb" and "length (buffer sb) \<le> 2 ^ w - 1"
  shows "GetOrCreateOffsetCache w sb =
           (spec_newline_offsets (buffer sb),
            sb\<lparr>offsetCache := Some (spec_newline_offsets (buffer sb))\<rparr>)"
proof (cases "offsetCache sb")
  case None
  with assms(2) show ?thesis
    by (simp add: GetOrCreateOffsetCache_def fill_offsets_spec Let_def)
next
  case (Some offs)
  with assms(1) have "offs = spec_newline_offsets (buffer sb)"
    by (simp add: cache_consistent_def)
  with Some show ?thesis
    by (simp add: GetOrCreateOffsetCache_def)
qed

lemma unat_dec: "(L :: 32 word) \<noteq> 0 \<Longrightarrow> unat (L - 1) = unat L - 1"
  by (simp add: unat_minus_one)

lemma unat_is_one: "(unat (L :: 32 word) = Suc 0) = (L = 1)"
proof
  assume "unat L = Suc 0"
  then have "unat L = unat (1 :: 32 word)" by simp
  then show "L = 1" by (simp only: word_unat_eq_iff)
qed simp

lemma Specialized_spec:
  assumes "cache_consistent sb" and "length (buffer sb) \<le> 2 ^ w - 1"
  shows "getPointerForLineNumberSpecialized w sb L =
           (spec_line_pointer (buffer sb) (unat L),
            sb\<lparr>offsetCache := Some (spec_newline_offsets (buffer sb))\<rparr>)"
proof -
  consider (zero) "L = 0" | (one) "L = 1" | (more) "2 \<le> unat L"
  proof -
    have "unat L = 0 \<or> unat L = Suc 0 \<or> 2 \<le> unat L" by arith
    then show ?thesis
      using zero one more by (auto simp: unat_is_one unat_eq_0)
  qed
  then show ?thesis
  proof cases
    case zero
    then show ?thesis
      by (simp add: getPointerForLineNumberSpecialized_def
          GetOrCreateOffsetCache_spec [OF assms] spec_line_pointer_def)
  next
    case one
    then show ?thesis
      by (simp add: getPointerForLineNumberSpecialized_def
          GetOrCreateOffsetCache_spec [OF assms] spec_line_pointer_def)
  next
    case more
    then have nz: "L \<noteq> 0" and n1: "L - 1 \<noteq> 0"
      by (auto simp: unat_is_one [symmetric])
    have dec: "unat (L - 1) = unat L - 1"
      using nz by (rule unat_dec)
    have idx: "unat L - 1 - 1 = unat L - 2" by simp
    from more nz n1 show ?thesis
      by (simp add: getPointerForLineNumberSpecialized_def
          GetOrCreateOffsetCache_spec [OF assms] spec_line_pointer_def dec idx
          del: One_nat_def)
  qed
qed

lemma dispatch_width:
  assumes "length (buffer sb) < 2 ^ 64"
  shows "\<exists>w. length (buffer sb) \<le> 2 ^ w - 1 \<and>
             getPointerForLineNumber sb L = getPointerForLineNumberSpecialized w sb L"
proof -
  let ?sz = "length (buffer sb)"
  consider "?sz \<le> 255" | "\<not> ?sz \<le> 255" "?sz \<le> 65535"
    | "\<not> ?sz \<le> 255" "\<not> ?sz \<le> 65535" "?sz \<le> 4294967295"
    | "\<not> ?sz \<le> 255" "\<not> ?sz \<le> 65535" "\<not> ?sz \<le> 4294967295"
    by blast
  then show ?thesis
  proof cases
    case 1
    then have "?sz \<le> 2 ^ 8 - 1" by simp
    with 1 show ?thesis
      unfolding getPointerForLineNumber_def Let_def by (intro exI [of _ 8]) simp
  next
    case 2
    then have "?sz \<le> 2 ^ 16 - 1" by simp
    with 2 show ?thesis
      unfolding getPointerForLineNumber_def Let_def by (intro exI [of _ 16]) simp
  next
    case 3
    then have "?sz \<le> 2 ^ 32 - 1" by simp
    with 3 show ?thesis
      unfolding getPointerForLineNumber_def Let_def by (intro exI [of _ 32]) simp
  next
    case 4
    from assms have "?sz \<le> 2 ^ 64 - 1" by simp
    with 4 show ?thesis
      unfolding getPointerForLineNumber_def Let_def by (intro exI [of _ 64]) simp
  qed
qed

lemma getPointerForLineNumber_spec:
  assumes "cache_consistent sb" and "length (buffer sb) < 2 ^ 64"
  shows "getPointerForLineNumber sb L =
           (spec_line_pointer (buffer sb) (unat L),
            sb\<lparr>offsetCache := Some (spec_newline_offsets (buffer sb))\<rparr>)"
proof -
  from dispatch_width [OF assms(2)] obtain w where
    "length (buffer sb) \<le> 2 ^ w - 1"
    "getPointerForLineNumber sb L = getPointerForLineNumberSpecialized w sb L"
    by blast
  then show ?thesis
    by (simp add: Specialized_spec [OF assms(1)])
qed

text \<open>
  Claim C1. For every source buffer and every line number \<open>L\<close>,
  \<open>getPointerForLineNumber\<close> returns the start of the buffer when \<open>L\<close> is 0 or 1, the
  position one byte past the \<open>(L - 1)\<close>-th newline byte when \<open>L\<close> is between 2 and the
  number of newline bytes plus one, and null when \<open>L - 1\<close> exceeds the number of newline
  bytes. The call leaves the offset cache holding exactly the offsets of the newline
  bytes in buffer order, and every element width that the size of the buffer admits
  gives the same result. The \<open>(L - 1)\<close>-th newline is the newline byte at a position \<open>p\<close>
  with \<open>L - 2\<close> newline bytes before it. The size of a buffer is a \<open>size_t\<close>, below
  \<open>2 ^ 64\<close>.
\<close>

theorem getPointerForLineNumber_line_start:
  assumes "cache_consistent sb" and "length (buffer sb) < 2 ^ 64"
  shows
    "snd (getPointerForLineNumber sb L) =
       sb\<lparr>offsetCache := Some (spec_newline_offsets (buffer sb))\<rparr> \<and>
     set (spec_newline_offsets (buffer sb)) =
       {i. i < length (buffer sb) \<and> buffer sb ! i = CHR 0x0A} \<and>
     sorted_wrt (<) (spec_newline_offsets (buffer sb)) \<and>
     (unat L \<le> 1 \<longrightarrow> fst (getPointerForLineNumber sb L) = Some 0) \<and>
     (2 \<le> unat L \<and> unat L \<le> count_list (buffer sb) (CHR 0x0A) + 1 \<longrightarrow>
        (\<exists>p. p < length (buffer sb) \<and> buffer sb ! p = CHR 0x0A \<and>
             count_list (take p (buffer sb)) (CHR 0x0A) = unat L - 2 \<and>
             fst (getPointerForLineNumber sb L) = Some (p + 1))) \<and>
     (count_list (buffer sb) (CHR 0x0A) < unat L - 1 \<longrightarrow>
        fst (getPointerForLineNumber sb L) = None) \<and>
     (\<forall>w \<in> {8, 16, 32, 64}. length (buffer sb) \<le> 2 ^ w - 1 \<longrightarrow>
        getPointerForLineNumberSpecialized w sb L = getPointerForLineNumber sb L)"
proof -
  let ?s = "buffer sb"
  let ?offs = "spec_newline_offsets ?s"
  note eq = getPointerForLineNumber_spec [OF assms]
  have c1: "snd (getPointerForLineNumber sb L) = sb\<lparr>offsetCache := Some ?offs\<rparr>"
    by (simp add: eq)
  have c2: "set ?offs = {i. i < length ?s \<and> ?s ! i = CHR 0x0A}"
    by (auto simp: spec_newline_offsets_def)
  have c3: "sorted_wrt (<) ?offs"
    unfolding spec_newline_offsets_def by (rule sorted_wrt_filter) simp
  have c4: "unat L \<le> 1 \<longrightarrow> fst (getPointerForLineNumber sb L) = Some 0"
    by (simp add: eq spec_line_pointer_def)
  have c5: "2 \<le> unat L \<and> unat L \<le> count_list ?s (CHR 0x0A) + 1 \<longrightarrow>
        (\<exists>p. p < length ?s \<and> ?s ! p = CHR 0x0A \<and>
             count_list (take p ?s) (CHR 0x0A) = unat L - 2 \<and>
             fst (getPointerForLineNumber sb L) = Some (p + 1))"
  proof
    assume a: "2 \<le> unat L \<and> unat L \<le> count_list ?s (CHR 0x0A) + 1"
    then have k: "unat L - 2 < length ?offs"
      by (simp add: length_spec_newline_offsets) arith
    from a have r: "fst (getPointerForLineNumber sb L) = Some (?offs ! (unat L - 2) + 1)"
      by (simp add: eq spec_line_pointer_def length_spec_newline_offsets) arith
    from spec_newline_offsets_nth [OF k] r show
      "\<exists>p. p < length ?s \<and> ?s ! p = CHR 0x0A \<and>
             count_list (take p ?s) (CHR 0x0A) = unat L - 2 \<and>
             fst (getPointerForLineNumber sb L) = Some (p + 1)"
      by blast
  qed
  have c6: "count_list ?s (CHR 0x0A) < unat L - 1 \<longrightarrow>
        fst (getPointerForLineNumber sb L) = None"
    by (simp add: eq spec_line_pointer_def length_spec_newline_offsets)
  have c7: "\<forall>w \<in> {8, 16, 32, 64}. length ?s \<le> 2 ^ w - 1 \<longrightarrow>
        getPointerForLineNumberSpecialized w sb L = getPointerForLineNumber sb L"
    using Specialized_spec [OF assms(1)] eq by simp
  show ?thesis
    by (rule conjI [OF c1 conjI [OF c2 conjI [OF c3 conjI [OF c4 conjI [OF c5
          conjI [OF c6 c7]]]]]])
qed

theorem getPointerForLineNumber_line_start_witness:
  "cache_consistent example_SrcBuffer \<and>
   length (buffer example_SrcBuffer) < 2 ^ 64 \<and>
   fst (getPointerForLineNumber example_SrcBuffer 1) = Some 0 \<and>
   fst (getPointerForLineNumber example_SrcBuffer 2) = Some 3 \<and>
   fst (getPointerForLineNumber example_SrcBuffer 3) = Some 6 \<and>
   fst (getPointerForLineNumber example_SrcBuffer 4) = None \<and>
   offsetCache (snd (getPointerForLineNumber example_SrcBuffer 3)) = Some [2, 5]"
proof -
  have h1: "cache_consistent example_SrcBuffer"
    by (simp add: cache_consistent_def example_SrcBuffer_def)
  have h2: "length (buffer example_SrcBuffer) < 2 ^ 64"
    by (simp add: example_SrcBuffer_def)
  have offs: "spec_newline_offsets (buffer example_SrcBuffer) = [2, 5]"
    by (simp add: example_SrcBuffer_def spec_newline_offsets_def upt_conv_Cons)
  have cnt: "count_list (buffer example_SrcBuffer) (CHR 0x0A) = 2"
    by (simp add: example_SrcBuffer_def)
  note T1 = getPointerForLineNumber_line_start [OF h1 h2, of 1]
  note T3 = getPointerForLineNumber_line_start [OF h1 h2, of 3]
  note T4 = getPointerForLineNumber_line_start [OF h1 h2, of 4]
  have r1: "fst (getPointerForLineNumber example_SrcBuffer 1) = Some 0"
    by (rule mp [OF conjunct1 [OF conjunct2 [OF conjunct2 [OF conjunct2 [OF T1]]]]]) simp
  have r4: "fst (getPointerForLineNumber example_SrcBuffer 4) = None"
    by (rule mp [OF conjunct1 [OF conjunct2 [OF conjunct2 [OF conjunct2 [OF conjunct2
          [OF conjunct2 [OF T4]]]]]]]) (simp add: cnt)
  have c3: "offsetCache (snd (getPointerForLineNumber example_SrcBuffer 3)) = Some [2, 5]"
    by (simp add: conjunct1 [OF T3] offs)
  have r2: "fst (getPointerForLineNumber example_SrcBuffer 2) = Some 3"
    by (simp add: example_SrcBuffer_def getPointerForLineNumber_def Let_def
        getPointerForLineNumberSpecialized_def GetOrCreateOffsetCache_def fill_offsets.simps)
  have r3: "fst (getPointerForLineNumber example_SrcBuffer 3) = Some 6"
    by (simp add: example_SrcBuffer_def getPointerForLineNumber_def Let_def
        getPointerForLineNumberSpecialized_def GetOrCreateOffsetCache_def fill_offsets.simps)
  show ?thesis
    by (intro conjI h1 h2 r1 r2 r3 r4 c3)
qed

section \<open>The load path\<close>

lemma findFile_loop_all_fail:
  "(\<forall>d \<in> set ds. isl (getFile H (d @ get_separator H @ path @ ''.'' @ DEFAULT_SUFFIX H)))
   \<Longrightarrow> fst (findFile_loop H path ds imp) = None"
  by (induction ds arbitrary: imp) (auto simp: Let_def split: sum.splits)






section \<open>Buffer ids\<close>

lemma unat_of_nat_32: "n < 2 ^ 32 \<Longrightarrow> unat (of_nat n :: 32 word) = n"
  by (simp add: unat_of_nat)

lemma of_nat_32_nonzero: "0 < n \<Longrightarrow> n < 2 ^ 32 \<Longrightarrow> (of_nat n :: 32 word) \<noteq> 0"
  using unat_of_nat_32 [of n] by (metis less_numeral_extra(3) unat_0)

lemma AddNewSourceBuffer_step:
  assumes "length (buffers sm) + 1 < 2 ^ 32"
  shows "\<exists>i sm'. AddNewSourceBuffer sm f loc = (i, sm') \<and>
           unat i = length (buffers sm) + 1 \<and> length (buffers sm') = length (buffers sm) + 1"
proof -
  have "unat (of_nat (length (buffers sm) + 1) :: 32 word) = length (buffers sm) + 1"
    using assms by (rule unat_of_nat_32)
  then show ?thesis
    by (simp add: AddNewSourceBuffer_def Let_def)
qed

lemma run_AddNewSourceBuffer_length:
  "length (run_AddNewSourceBuffer sm calls) = length calls"
  by (induction calls arbitrary: sm) (auto split: prod.splits)

lemma run_AddNewSourceBuffer_each:
  "length (buffers sm) + length calls < 2 ^ 32 \<Longrightarrow>
   (i, sm') \<in> set (run_AddNewSourceBuffer sm calls) \<Longrightarrow>
   unat i = length (buffers sm') \<and> length (buffers sm) < unat i"
proof (induction calls arbitrary: sm)
  case Nil
  then show ?case by simp
next
  case (Cons call calls)
  obtain f loc where call: "call = (f, loc)" by (cases call)
  from Cons.prems(1) have "length (buffers sm) + 1 < 2 ^ 32" by simp
  from AddNewSourceBuffer_step [OF this, of f loc] obtain j sm1 where
    add: "AddNewSourceBuffer sm f loc = (j, sm1)" and
    j: "unat j = length (buffers sm) + 1" and
    len: "length (buffers sm1) = length (buffers sm) + 1"
    by blast
  from Cons.prems(2) call add
  consider "(i, sm') = (j, sm1)" | "(i, sm') \<in> set (run_AddNewSourceBuffer sm1 calls)"
    by auto
  then show ?case
  proof cases
    case 1
    with j len show ?thesis by simp
  next
    case 2
    have "length (buffers sm1) + length calls < 2 ^ 32"
      using Cons.prems(1) len by simp
    from Cons.IH [OF this 2] len show ?thesis by simp
  qed
qed

lemma run_AddNewSourceBuffer_sorted:
  "length (buffers sm) + length calls < 2 ^ 32 \<Longrightarrow>
   sorted_wrt (<) (map fst (run_AddNewSourceBuffer sm calls))"
proof (induction calls arbitrary: sm)
  case Nil
  then show ?case by simp
next
  case (Cons call calls)
  obtain f loc where call: "call = (f, loc)" by (cases call)
  from Cons.prems have "length (buffers sm) + 1 < 2 ^ 32" by simp
  from AddNewSourceBuffer_step [OF this, of f loc] obtain j sm1 where
    add: "AddNewSourceBuffer sm f loc = (j, sm1)" and
    j: "unat j = length (buffers sm) + 1" and
    len: "length (buffers sm1) = length (buffers sm) + 1"
    by blast
  have bound: "length (buffers sm1) + length calls < 2 ^ 32"
    using Cons.prems len by simp
  have "j < i" if "i \<in> set (map fst (run_AddNewSourceBuffer sm1 calls))" for i
  proof -
    from that obtain sm' where "(i, sm') \<in> set (run_AddNewSourceBuffer sm1 calls)"
      by auto
    from run_AddNewSourceBuffer_each [OF bound this] j len show ?thesis
      by (simp add: word_less_nat_alt)
  qed
  with Cons.IH [OF bound] show ?case
    by (simp add: call add)
qed

text \<open>
  Claim C3, amended. Across any sequence of \<open>AddNewSourceBuffer\<close> calls on one source
  manager that keeps the number of registered buffers below \<open>2 ^ 32\<close>, the range of
  the \<open>unsigned\<close> id, the returned ids strictly increase and are never zero, and
  immediately after each call the returned id \<open>i\<close> is valid, that is \<open>1 \<le> i\<close> and
  \<open>i\<close> is at most the number of registered buffers; it was not valid before the
  sequence.
\<close>

theorem AddNewSourceBuffer_ids_increase:
  assumes "length (buffers sm) + length calls < 2 ^ 32"
  shows
    "sorted_wrt (<) (map fst (run_AddNewSourceBuffer sm calls)) \<and>
     length (run_AddNewSourceBuffer sm calls) = length calls \<and>
     (\<forall>(i, sm') \<in> set (run_AddNewSourceBuffer sm calls).
        i \<noteq> 0 \<and> isValidBufferID sm' i \<and> 1 \<le> unat i \<and> unat i \<le> length (buffers sm') \<and>
        \<not> isValidBufferID sm i)"
proof -
  have each: "i \<noteq> 0 \<and> isValidBufferID sm' i \<and> 1 \<le> unat i \<and> unat i \<le> length (buffers sm') \<and>
        \<not> isValidBufferID sm i"
    if "(i, sm') \<in> set (run_AddNewSourceBuffer sm calls)" for i sm'
  proof -
    from run_AddNewSourceBuffer_each [OF assms that]
    have u: "unat i = length (buffers sm')" "length (buffers sm) < unat i"
      by simp_all
    then have "i \<noteq> 0" by auto
    with u show ?thesis
      by (simp add: isValidBufferID_def)
  qed
  have all: "\<forall>(i, sm') \<in> set (run_AddNewSourceBuffer sm calls).
        i \<noteq> 0 \<and> isValidBufferID sm' i \<and> 1 \<le> unat i \<and> unat i \<le> length (buffers sm') \<and>
        \<not> isValidBufferID sm i"
  proof (rule ballI)
    fix r assume r: "r \<in> set (run_AddNewSourceBuffer sm calls)"
    obtain i sm' where "r = (i, sm')" by (cases r)
    with r each [of i sm'] show "case r of (i, sm') \<Rightarrow>
        i \<noteq> 0 \<and> isValidBufferID sm' i \<and> 1 \<le> unat i \<and> unat i \<le> length (buffers sm') \<and>
        \<not> isValidBufferID sm i"
      by simp
  qed
  show ?thesis
    by (rule conjI [OF run_AddNewSourceBuffer_sorted [OF assms]
          conjI [OF run_AddNewSourceBuffer_length all]])
qed

theorem AddNewSourceBuffer_ids_increase_witness:
  "length (buffers example_SourceMgr) +
     length [(''a'', LocationRange_UnknownLocation ''user''),
             (''b'', LocationRange_UnknownLocation ''user'')] < 2 ^ 32 \<and>
   sorted_wrt (<) (map fst (run_AddNewSourceBuffer example_SourceMgr
     [(''a'', LocationRange_UnknownLocation ''user''),
      (''b'', LocationRange_UnknownLocation ''user'')])) \<and>
   map fst (run_AddNewSourceBuffer example_SourceMgr
     [(''a'', LocationRange_UnknownLocation ''user''),
      (''b'', LocationRange_UnknownLocation ''user'')]) = [1, 2]"
proof -
  let ?calls = "[(''a'', LocationRange_UnknownLocation ''user''),
             (''b'', LocationRange_UnknownLocation ''user'')]"
  have bound: "length (buffers example_SourceMgr) + length ?calls < 2 ^ 32"
    by (simp add: example_SourceMgr_def)
  note T = conjunct1 [OF AddNewSourceBuffer_ids_increase [OF bound]]
  have ids: "map fst (run_AddNewSourceBuffer example_SourceMgr ?calls) = [1, 2]"
    by (simp add: AddNewSourceBuffer_def example_SourceMgr_def Let_def)
  show ?thesis
    by (intro conjI bound T ids)
qed

text \<open>
  Claim C3 as stated, for any sequence, fails where the count of buffers leaves the
  range of the id: the call that registers buffer number \<open>2 ^ 32\<close> returns the id 0,
  which is not a valid id.
\<close>

theorem AddNewSourceBuffer_id_wraps_to_zero:
  "fst (AddNewSourceBuffer example_full_SourceMgr ''(a 1)''
          (LocationRange_UnknownLocation ''user'')) = 0 \<and>
   \<not> isValidBufferID
       (snd (AddNewSourceBuffer example_full_SourceMgr ''(a 1)''
               (LocationRange_UnknownLocation ''user'')))
       (fst (AddNewSourceBuffer example_full_SourceMgr ''(a 1)''
               (LocationRange_UnknownLocation ''user''))) \<and>
   length (buffers (snd (AddNewSourceBuffer example_full_SourceMgr ''(a 1)''
               (LocationRange_UnknownLocation ''user'')))) = 4294967296"
proof -
  have len: "length (buffers example_full_SourceMgr) = 4294967295"
    by (simp add: example_full_SourceMgr_def)
  have z: "(of_nat (4294967295 + 1) :: 32 word) = 0"
    by simp
  have id0: "fst (AddNewSourceBuffer example_full_SourceMgr ''(a 1)''
          (LocationRange_UnknownLocation ''user'')) = 0"
    using z by (simp add: AddNewSourceBuffer_def Let_def len)
  have inv: "\<not> isValidBufferID
       (snd (AddNewSourceBuffer example_full_SourceMgr ''(a 1)''
               (LocationRange_UnknownLocation ''user'')))
       (fst (AddNewSourceBuffer example_full_SourceMgr ''(a 1)''
               (LocationRange_UnknownLocation ''user'')))"
    unfolding id0 by (simp add: isValidBufferID_def)
  have n: "length (buffers (snd (AddNewSourceBuffer example_full_SourceMgr ''(a 1)''
               (LocationRange_UnknownLocation ''user'')))) = 4294967296"
    by (simp add: AddNewSourceBuffer_def Let_def len)
  show ?thesis
    by (rule conjI [OF id0 conjI [OF inv n]])
qed

section \<open>Expanding the tree of a namespace\<close>

text \<open>
  Claim C4. For every compilation phase, \<open>ExpandTree\<close> appends the forms of the given
  ast, in order, to the end of the tree of the namespace, leaves the given ast empty,
  leaves the forms that the tree held and every other member unchanged, and returns
  success; in the phase \<open>Parse\<close> as in every other the forms are appended as they are.
\<close>

theorem ExpandTree_appends:
  "ExpandTree this ast = (None, this\<lparr>tree := tree this @ ast\<rparr>, [])"
  by (simp add: ExpandTree_def)

section \<open>Symbols\<close>

lemma find_from_absent: "ch \<notin> set s \<Longrightarrow> find_from ch s i = None"
  by (induction s arbitrary: i) auto

lemma find_from_first: "ch \<notin> set a \<Longrightarrow> find_from ch (a @ ch # b) i = Some (i + length a)"
  by (induction a arbitrary: i) auto

text \<open>
  Claim C5. Constructing a \<open>Symbol\<close> splits the lexeme at its first slash: for a
  lexeme \<open>a/b\<close>, where \<open>a\<close> has no slash, the namespace part is \<open>a\<close> and the name is
  \<open>b\<close>; for a lexeme without a slash the namespace part is the current namespace and
  the name is the whole lexeme.
\<close>

theorem Symbol_ctor_splits_at_first_slash:
  "(CHR ''/'' \<notin> set a \<longrightarrow>
      sym_nsName (Symbol_ctor loc (a @ ''/'' @ b) cur) = a \<and>
      sym_name (Symbol_ctor loc (a @ ''/'' @ b) cur) = b) \<and>
   (CHR ''/'' \<notin> set lx \<longrightarrow>
      sym_nsName (Symbol_ctor loc lx cur) = cur \<and>
      sym_name (Symbol_ctor loc lx cur) = lx)"
  by (simp add: Symbol_ctor_def StringRef_find_def find_from_absent find_from_first substr_def)

theorem Symbol_ctor_splits_at_first_slash_witness:
  "sym_nsName (Symbol_ctor (LocationRange_UnknownLocation ''user'') ''core/map/x'' ''user'') = ''core'' \<and>
   sym_name (Symbol_ctor (LocationRange_UnknownLocation ''user'') ''core/map/x'' ''user'') = ''map/x'' \<and>
   sym_nsName (Symbol_ctor (LocationRange_UnknownLocation ''user'') ''map'' ''user'') = ''user'' \<and>
   sym_name (Symbol_ctor (LocationRange_UnknownLocation ''user'') ''map'' ''user'') = ''map''"
  using Symbol_ctor_splits_at_first_slash
    [of "''core''" "LocationRange_UnknownLocation ''user''" "''map/x''" "''user''" "''map''"]
  by simp

section \<open>Environments\<close>

lemma lookup_local:
  "st e = Some env \<Longrightarrow> toBool (StringMap_lookup dflt (pairs env) k) \<Longrightarrow>
   lookup toBool dflt st e k = Some (Some (StringMap_lookup dflt (pairs env) k))"
  by (subst lookup.simps) simp

lemma lookup_parent:
  "st e = Some env \<Longrightarrow> \<not> toBool (StringMap_lookup dflt (pairs env) k) \<Longrightarrow>
   parent env = Some q \<Longrightarrow> lookup toBool dflt st e k = lookup toBool dflt st q k"
  by (subst lookup.simps) simp

lemma lookup_root:
  "st e = Some env \<Longrightarrow> \<not> toBool (StringMap_lookup dflt (pairs env) k) \<Longrightarrow>
   parent env = None \<Longrightarrow> lookup toBool dflt st e k = Some None"
  by (subst lookup.simps) simp

lemma insert_symbol_Some:
  "st e = Some env \<Longrightarrow>
   insert_symbol st e k v =
     Some (Success, st(e \<mapsto> Environment (parent env) ((pairs env)(k \<mapsto> v))))"
  by (simp add: insert_symbol_def insert_or_assign_def)

text \<open>
  What \<open>lookup\<close> and \<open>insert_symbol\<close> do for values that convert to \<open>true\<close>: after
  an insertion of \<open>x\<close> in the parent and one in the child, the lookup of \<open>x\<close> yields
  the value of the child in the child and the value of the parent in the parent; a
  local binding that converts to \<open>true\<close> is returned; otherwise the walk continues
  with the parent and ends without a value at an environment that has none; an
  insertion writes into the local map.
\<close>

lemma Environment_shadowing_truthy:
  "(st p = Some (Environment pp pm) \<and> st chd = Some (Environment (Some p) cm) \<and> p \<noteq> chd \<and>
    toBool v1 \<and> toBool v2 \<longrightarrow>
      lookup toBool dflt
        (store_after_insert (store_after_insert st p x v1) chd x v2) chd x = Some (Some v2) \<and>
      lookup toBool dflt
        (store_after_insert (store_after_insert st p x v1) chd x v2) p x = Some (Some v1)) \<and>
   (st e = Some env \<and> pairs env k = Some v \<and> toBool v \<longrightarrow>
      lookup toBool dflt st e k = Some (Some v)) \<and>
   (st e = Some env \<and> \<not> toBool (StringMap_lookup dflt (pairs env) k) \<and>
    parent env = Some q \<longrightarrow>
      lookup toBool dflt st e k = lookup toBool dflt st q k) \<and>
   (st e = Some env \<and> \<not> toBool (StringMap_lookup dflt (pairs env) k) \<and>
    parent env = None \<longrightarrow>
      lookup toBool dflt st e k = Some None) \<and>
   (st e = Some env \<longrightarrow>
      insert_symbol st e k v =
        Some (Success, st(e \<mapsto> Environment (parent env) ((pairs env)(k \<mapsto> v)))))"
proof -
  have a: "lookup toBool dflt
        (store_after_insert (store_after_insert st p x v1) chd x v2) chd x = Some (Some v2) \<and>
      lookup toBool dflt
        (store_after_insert (store_after_insert st p x v1) chd x v2) p x = Some (Some v1)"
    if "st p = Some (Environment pp pm)" "st chd = Some (Environment (Some p) cm)" "p \<noteq> chd"
      "toBool v1" "toBool v2"
  proof -
    let ?st1 = "st(p \<mapsto> Environment pp (pm(x \<mapsto> v1)))"
    let ?st2 = "?st1(chd \<mapsto> Environment (Some p) (cm(x \<mapsto> v2)))"
    have s1: "store_after_insert st p x v1 = ?st1"
      using that(1) by (simp add: store_after_insert_def insert_symbol_Some)
    have s2: "store_after_insert ?st1 chd x v2 = ?st2"
      using that(2,3) by (simp add: store_after_insert_def insert_symbol_Some)
    have cl: "lookup toBool dflt ?st2 chd x = Some (Some v2)"
      using that(5) lookup_local [of ?st2 chd "Environment (Some p) (cm(x \<mapsto> v2))" toBool dflt x]
      by (simp add: StringMap_lookup_def)
    have pl: "lookup toBool dflt ?st2 p x = Some (Some v1)"
      using that(3,4) lookup_local [of ?st2 p "Environment pp (pm(x \<mapsto> v1))" toBool dflt x]
      by (simp add: StringMap_lookup_def)
    from cl pl show ?thesis by (simp only: s1 s2)
  qed
  have b: "lookup toBool dflt st e k = Some (Some v)"
    if "st e = Some env" "pairs env k = Some v" "toBool v"
    using that lookup_local [of st e env toBool dflt k] by (simp add: StringMap_lookup_def)
  have A: "st p = Some (Environment pp pm) \<and> st chd = Some (Environment (Some p) cm) \<and>
      p \<noteq> chd \<and> toBool v1 \<and> toBool v2 \<longrightarrow>
      lookup toBool dflt
        (store_after_insert (store_after_insert st p x v1) chd x v2) chd x = Some (Some v2) \<and>
      lookup toBool dflt
        (store_after_insert (store_after_insert st p x v1) chd x v2) p x = Some (Some v1)"
    by (intro impI, elim conjE, rule a; assumption)
  have B: "st e = Some env \<and> pairs env k = Some v \<and> toBool v \<longrightarrow>
      lookup toBool dflt st e k = Some (Some v)"
    by (intro impI, elim conjE, rule b; assumption)
  have C: "st e = Some env \<and> \<not> toBool (StringMap_lookup dflt (pairs env) k) \<and>
      parent env = Some q \<longrightarrow>
      lookup toBool dflt st e k = lookup toBool dflt st q k"
    by (intro impI, elim conjE, rule lookup_parent; assumption)
  have D: "st e = Some env \<and> \<not> toBool (StringMap_lookup dflt (pairs env) k) \<and>
      parent env = None \<longrightarrow>
      lookup toBool dflt st e k = Some None"
    by (intro impI, elim conjE, rule lookup_root; assumption)
  have E: "st e = Some env \<longrightarrow>
      insert_symbol st e k v =
        Some (Success, st(e \<mapsto> Environment (parent env) ((pairs env)(k \<mapsto> v))))"
    by (intro impI, rule insert_symbol_Some)
  show ?thesis
    by (rule conjI [OF A conjI [OF B conjI [OF C conjI [OF D E]]]])
qed

lemma Environment_shadowing_truthy_example:
  "example_env_store 0 = Some (Environment None Map.empty) \<and>
   example_env_store 1 = Some (Environment (Some 0) Map.empty) \<and>
   int_toBool 5 \<and> int_toBool 7 \<and>
   lookup int_toBool 0
     (store_after_insert (store_after_insert example_env_store 0 ''x'' 5) 1 ''x'' 7) 1 ''x''
     = Some (Some 7) \<and>
   lookup int_toBool 0
     (store_after_insert (store_after_insert example_env_store 0 ''x'' 5) 1 ''x'' 7) 0 ''x''
     = Some (Some 5)"
proof -
  have h1: "example_env_store 0 = Some (Environment None Map.empty)"
    and h2: "example_env_store 1 = Some (Environment (Some 0) Map.empty)"
    and h3: "(0::nat) \<noteq> 1" and h4: "int_toBool 5" and h5: "int_toBool 7"
    by (simp_all add: example_env_store_def Environment_ctor_def int_toBool_def)
  have cc: "lookup int_toBool 0
        (store_after_insert (store_after_insert example_env_store 0 ''x'' 5) 1 ''x'' 7) 1 ''x''
        = Some (Some 7) \<and>
      lookup int_toBool 0
        (store_after_insert (store_after_insert example_env_store 0 ''x'' 5) 1 ''x'' 7) 0 ''x''
        = Some (Some 5)"
    by (rule mp [OF conjunct1 [OF Environment_shadowing_truthy
        [where st = example_env_store and p = 0 and pp = None and pm = Map.empty and chd = 1
           and cm = Map.empty and toBool = int_toBool and ?v1.0 = 5 and ?v2.0 = 7
           and dflt = 0 and x = "''x''"]]])
       (intro conjI h1 h2 h3 h4 h5)
  note c1 = conjunct1 [OF cc] and c2 = conjunct2 [OF cc]
  show ?thesis
    by (intro conjI h1 h2 h4 h5 c1 c2)
qed

lemmas example_store_defs =
  store_after_insert_def insert_symbol_def insert_or_assign_def example_env_store_def
  Environment_ctor_def

text \<open>
  Claim C6. After \<open>insert("x", v1)\<close> in the parent and \<open>insert("x", v2)\<close> in the
  child, the lookup of \<open>x\<close> in the child should yield \<open>v2\<close> and the lookup in the
  parent \<open>v1\<close>: \<open>lookup\<close> should return the local binding when one exists, as an
  insertion is documented to shadow the key of the parent. The code tests the truth
  value of the stored value instead of the presence of the key, and loses a binding
  whose value converts to \<open>false\<close>. With values of type \<open>int\<close>: after the parent binds
  \<open>x\<close> to 5 and the child binds \<open>x\<close> to 0, the lookup in the child yields the 5 of
  the parent, not the 0 of the child; and a root that binds \<open>x\<close> to 0 yields no value
  for \<open>x\<close>.
\<close>

theorem Environment_lookup_loses_falsy_binding:
  "lookup int_toBool 0
     (store_after_insert (store_after_insert example_env_store 0 ''x'' 5) 1 ''x'' 0) 1 ''x''
     = Some (Some 5) \<and>
   lookup int_toBool 0
     (store_after_insert (store_after_insert example_env_store 0 ''x'' 5) 1 ''x'' 0) 1 ''x''
     \<noteq> Some (Some 0) \<and>
   lookup int_toBool 0
     (store_after_insert (store_after_insert example_env_store 0 ''x'' 0) 1 ''x'' 7) 0 ''x''
     = Some None"
proof -
  let ?st = "store_after_insert (store_after_insert example_env_store 0 ''x'' 5) 1 ''x'' 0"
  let ?st' = "store_after_insert (store_after_insert example_env_store 0 ''x'' 0) 1 ''x'' 7"
  have child: "?st 1 = Some (Environment (Some 0) [''x'' \<mapsto> 0])"
    and root: "?st 0 = Some (Environment None [''x'' \<mapsto> 5])"
    and root': "?st' 0 = Some (Environment None [''x'' \<mapsto> 0])"
    by (simp_all add: example_store_defs)
  have "lookup int_toBool 0 ?st 1 ''x'' = lookup int_toBool 0 ?st 0 ''x''"
    using child
    by (intro lookup_parent [where env = "Environment (Some 0) [''x'' \<mapsto> 0]"])
       (simp_all add: StringMap_lookup_def int_toBool_def)
  also have "\<dots> = Some (Some (StringMap_lookup 0 (pairs (Environment None [''x'' \<mapsto> 5])) ''x''))"
    using root
    by (intro lookup_local [where env = "Environment None [''x'' \<mapsto> 5]"])
       (simp_all add: StringMap_lookup_def int_toBool_def)
  also have "\<dots> = Some (Some 5)"
    by (simp add: StringMap_lookup_def)
  finally have a: "lookup int_toBool 0 ?st 1 ''x'' = Some (Some 5)" .
  have b: "lookup int_toBool 0 ?st' 0 ''x'' = Some None"
    using root'
    by (intro lookup_root [where env = "Environment None [''x'' \<mapsto> 0]"])
       (simp_all add: StringMap_lookup_def int_toBool_def)
  have ne: "lookup int_toBool 0 ?st 1 ''x'' \<noteq> Some (Some 0)"
    unfolding a by simp
  show ?thesis
    by (intro conjI a ne b)
qed

section \<open>Reading a namespace\<close>








section \<open>Displaying an error\<close>

text \<open>
  Claim C8, amended. An error made with a message displays that message; an error made
  without one displays the empty string: \<open>log\<close> writes the member \<open>msg\<close> and nothing
  else, and the table of default messages is not consulted.
\<close>

theorem log_prints_msg_only:
  "getMessage (errors_make_msg t loc m) = m \<and> log (errors_make_msg t loc m) os = os @ m \<and>
   getMessage (errors_make t loc) = '''' \<and> log (errors_make t loc) os = os"
  by (simp add: getMessage_def log_def errors_make_def errors_make_msg_def Error_ctor2_def Error_ctor3_def)

text \<open>
  Claim C8 as stated fails for an error made without a message: what is displayed is
  the empty message, not the default message of its kind.
\<close>

theorem default_message_not_displayed:
  "getMessage (errors_make NSLoadError (LocationRange_UnknownLocation ''user'')) = '''' \<and>
   getMessage (errors_make NSLoadError (LocationRange_UnknownLocation ''user''))
     \<noteq> errorMessages NSLoadError"
  by (simp add: getMessage_def log_def errors_make_def Error_ctor2_def)

section \<open>A reader error after the registration\<close>

text \<open>
  Claim C9. If the reader fails while \<open>readNamespace\<close> processes a namespace, the
  error of the reader is returned, the freshly registered buffer remains in the source
  manager and the namespace index maps the name to the id of that buffer: the
  registration is not rolled back. The id is valid afterwards and was not before, and
  it names the bytes that were read.
\<close>

theorem readNamespace_reader_error_keeps_registration:
  assumes hit: "findFileInLoadPath H sm nm [] = (Some content, path)"
    and bound: "length (buffers sm) + 1 < 2 ^ 32"
    and fails: "rd content nm (Some path) = Inl err"
  shows
    "readNamespace H rd sm nm loc =
       (Inl err,
        sm\<lparr>buffers := buffers sm @ [\<lparr>buffer = content, offsetCache = None, importLoc = loc\<rparr>],
           nsTable := (nsTable sm)(nm \<mapsto> of_nat (length (buffers sm) + 1))\<rparr>) \<and>
     isValidBufferID (snd (readNamespace H rd sm nm loc)) (of_nat (length (buffers sm) + 1)) \<and>
     \<not> isValidBufferID sm (of_nat (length (buffers sm) + 1)) \<and>
     getMemoryBuffer (snd (readNamespace H rd sm nm loc)) (of_nat (length (buffers sm) + 1))
       = content"
proof -
  define i :: "32 word" where "i = of_nat (length (buffers sm) + 1)"
  define nb where "nb = \<lparr>buffer = content, offsetCache = None, importLoc = loc\<rparr>"
  define sm1 where "sm1 = sm\<lparr>buffers := buffers sm @ [nb]\<rparr>"
  define sm2 where "sm2 = sm1\<lparr>nsTable := insert_or_assign (nsTable sm1) nm i\<rparr>"
  have u: "unat i = length (buffers sm) + 1"
    unfolding i_def using bound by (rule unat_of_nat_32)
  have nz: "i \<noteq> 0"
    unfolding i_def using bound by (intro of_nat_32_nonzero) simp_all
  have add: "AddNewSourceBuffer sm content loc = (i, sm1)"
    by (simp add: AddNewSourceBuffer_def Let_def i_def sm1_def nb_def)
  have buf: "getMemoryBuffer sm2 i = content"
    using u by (simp add: getMemoryBuffer_def sm2_def sm1_def nb_def)
  have res: "readNamespace H rd sm nm loc = (Inl err, sm2)"
    using nz by (simp add: readNamespace_def hit add buf fails Let_def sm2_def [symmetric])
  have sm2: "sm2 = sm\<lparr>buffers := buffers sm @ [nb], nsTable := (nsTable sm)(nm \<mapsto> i)\<rparr>"
    by (simp add: insert_or_assign_def sm2_def sm1_def)
  have valid: "isValidBufferID sm2 i"
    using nz u by (simp add: isValidBufferID_def sm2)
  have invalid: "\<not> isValidBufferID sm i"
    using u by (simp add: isValidBufferID_def)
  from res sm2 valid invalid buf show ?thesis
    unfolding i_def [symmetric] nb_def [symmetric] by simp
qed

theorem readNamespace_reader_error_keeps_registration_witness:
  "findFileInLoadPath example_Host example_SourceMgr ''bad'' [] =
     (Some ''(a'', ''/tmp/b/bad.srn'') \<and>
   length (buffers example_SourceMgr) + 1 < 2 ^ 32 \<and>
   example_reader ''(a'' ''bad'' (Some ''/tmp/b/bad.srn'') =
     Inl (errors_make EOFWhileScaningAList (LocationRange_UnknownLocation ''bad'')) \<and>
   readNamespace example_Host example_reader example_SourceMgr ''bad''
       (LocationRange_UnknownLocation ''user'') =
     (Inl (errors_make EOFWhileScaningAList (LocationRange_UnknownLocation ''bad'')),
      \<lparr>buffers = [\<lparr>buffer = ''(a'', offsetCache = None,
                     importLoc = LocationRange_UnknownLocation ''user''\<rparr>],
       nsTable = [''bad'' \<mapsto> 1],
       loadPaths = [''/tmp/a'', ''/tmp/b'']\<rparr>)"
proof -
  have hit: "findFileInLoadPath example_Host example_SourceMgr ''bad'' [] =
     (Some ''(a'', ''/tmp/b/bad.srn'')"
    by (simp add: findFileInLoadPath_def example_SourceMgr_def convertNamespaceToPath_def
        std_replace_def example_Host_def)
  have bound: "length (buffers example_SourceMgr) + 1 < 2 ^ 32"
    by (simp add: example_SourceMgr_def)
  have fails: "example_reader ''(a'' ''bad'' (Some ''/tmp/b/bad.srn'') =
     Inl (errors_make EOFWhileScaningAList (LocationRange_UnknownLocation ''bad''))"
    by (simp add: example_reader_def)
  note T = conjunct1 [OF readNamespace_reader_error_keeps_registration
      [where H = example_Host and rd = example_reader and sm = example_SourceMgr
         and nm = "''bad''" and content = "''(a''" and path = "''/tmp/b/bad.srn''"
         and loc = "LocationRange_UnknownLocation ''user''", OF hit bound fails]]
  have r: "readNamespace example_Host example_reader example_SourceMgr ''bad''
       (LocationRange_UnknownLocation ''user'') =
     (Inl (errors_make EOFWhileScaningAList (LocationRange_UnknownLocation ''bad'')),
      \<lparr>buffers = [\<lparr>buffer = ''(a'', offsetCache = None,
                     importLoc = LocationRange_UnknownLocation ''user''\<rparr>],
       nsTable = [''bad'' \<mapsto> 1],
       loadPaths = [''/tmp/a'', ''/tmp/b'']\<rparr>)"
    unfolding T by (simp add: example_SourceMgr_def)
  show ?thesis
    by (intro conjI hit bound fails r)
qed

section \<open>The type id of an Error node\<close>

text \<open>
  Claim C10. For every \<open>Error\<close> node \<open>getType\<close> returns \<open>KEYWORD\<close>, and
  \<open>Error::classof\<close> accepts exactly the expressions whose type id is \<open>KEYWORD\<close>, so it
  agrees with \<open>Keyword::classof\<close> on every expression: a \<open>Keyword\<close> node passes for an
  \<open>Error\<close> and an \<open>Error\<close> node for a \<open>Keyword\<close>.
\<close>

theorem Error_node_has_Keyword_type:
  "getType (Error loc m tag) = KEYWORD \<and>
   Error_classof e = (getType e = KEYWORD) \<and>
   Error_classof e = Keyword_classof e \<and>
   Error_classof (Keyword loc' n) \<and>
   Keyword_classof (Error loc m tag)"
  by (simp add: Error_classof_def Keyword_classof_def)

end
